theory Spec2Isabelle
  imports Main "HOL-Library.Sublist"
begin

section \<open>Values exchanged with the search backend\<close>

text \<open>
  A shallow embedding of \<^verbatim>\<open>lib/index.js\<close>, the plugin that keeps an ElasticSearch index
  in step with a mongoose collection. JavaScript values that reach the backend are
  \<open>jsval\<close>s; a plain object (a serialized document, the \<^verbatim>\<open>doc\<close> of a partial update) is a
  map from property names to values.
\<close>

datatype jsval =
    JUndefined
  | JNull
  | JBool bool
  | JNum int
  | JStr string
  | JArr "jsval list"

type_synonym obj = "string \<rightharpoonup> jsval"

text \<open>
  A backend error. The code reads one property of it, \<^verbatim>\<open>err.status\<close>, which may be
  missing.
\<close>

record error =
  status :: "int option"
  message :: string

text \<open>
  The single-document calls of the client: \<^verbatim>\<open>client.index\<close>, \<^verbatim>\<open>client.update\<close> and
  \<^verbatim>\<open>client.delete\<close>. The body of a request is the plain document (\<^verbatim>\<open>body\<close>), a partial
  update (\<^verbatim>\<open>{doc: body}\<close>), a script (\<^verbatim>\<open>{script: "..."}\<close>) or absent.
\<close>

datatype call_kind = Index | Update | Delete

datatype payload =
    Source obj
  | PartialDoc obj
  | ScriptBody string
  | NoBody

record request =
  rq_method :: call_kind
  rq_index :: string
  rq_type :: string
  rq_id :: string
  rq_body :: payload

text \<open>
  The callback of a client call receives \<^verbatim>\<open>(err, result)\<close>: \<open>Inl err\<close> when \<^verbatim>\<open>err\<close> is
  truthy, \<open>Inr result\<close> otherwise.
\<close>

type_synonym response = "error + jsval"

text \<open>
  What the hooks and document methods do to the outside: requests handed to the client
  and events emitted on the document (\<^verbatim>\<open>doc.emit\<close>) or on its model
  (\<^verbatim>\<open>doc.constructor.emit\<close>). An event carries \<^verbatim>\<open>(name, err, res)\<close>; an argument that is
  not passed is \<^verbatim>\<open>undefined\<close>.
\<close>

datatype scope = Instance string | Collection

datatype action =
    Request request
  | Emit scope string "error option" jsval

text \<open>
  The backend is scripted: \<open>replies\<close> holds the answers that the client will deliver to
  the next calls, in call order. A call made when the script is exhausted never has
  its callback invoked. \<open>log\<close> records every action in the order it happens.
\<close>

record world =
  replies :: "response list"
  log :: "action list"

definition act :: "action \<Rightarrow> world \<Rightarrow> world" where
  "act a w = w\<lparr>log := log w @ [a]\<rparr>"

definition client_call :: "request \<Rightarrow> world \<Rightarrow> response option \<times> world" where
  "client_call rq w =
     (case replies w of
        [] \<Rightarrow> (None, act (Request rq) w)
      | r # rs \<Rightarrow> (Some r, act (Request rq) (w\<lparr>replies := rs\<rparr>)))"

text \<open>
  The promise built by \<^verbatim>\<open>utils.run\<close> around \<^verbatim>\<open>(resolve, reject)\<close>: resolved with a value,
  rejected with an error, or never settled.
\<close>

datatype outcome = Resolved jsval | Rejected error | Pending

section \<open>Documents and options\<close>

text \<open>
  The pending mutation context \<^verbatim>\<open>_mexp\<close> that \<^verbatim>\<open>preSave\<close> attaches to a document. A
  property that was never assigned is \<^verbatim>\<open>undefined\<close> (\<open>None\<close>); \<open>no_mexp\<close> is the object
  \<^verbatim>\<open>{}\<close> that \<^verbatim>\<open>postSave\<close> falls back on.
\<close>

record mexp =
  wasNew :: "bool option"
  unset :: "string list option"

definition no_mexp :: mexp where
  "no_mexp = \<lparr>wasNew = None, unset = None\<rparr>"

text \<open>
  A document: \<open>doc_id\<close> is \<^verbatim>\<open>_id.toString()\<close>, \<open>has_esOptions\<close> says whether the object
  has the \<^verbatim>\<open>esOptions\<close> method that the plugin installs, \<open>paths\<close> are its stored fields.
\<close>

record doc =
  doc_id :: string
  isNew :: bool
  d_mexp :: "mexp option"
  has_esOptions :: bool
  paths :: obj

text \<open>
  The resolved options that \<^verbatim>\<open>esOptions()\<close> returns, as far as the code below reads
  them. The mapping is only handed on to \<^verbatim>\<open>utils.serialize\<close> and
  \<^verbatim>\<open>utils.getUndefineds\<close>, which are parameters of the model; its type is left open.
\<close>

record 'm esOptions =
  es_index :: string
  es_type :: string
  es_script :: bool
  es_filter :: "(doc \<Rightarrow> bool) option"
  es_mapping :: 'm

text \<open>
  A JavaScript object as the code assigns to it: its own properties, and whether it
  still inherits from \<^verbatim>\<open>Object.prototype\<close>, whose accessor \<^verbatim>\<open>__proto__\<close> intercepts an
  assignment to that name. Only the own properties of a body reach the backend.
  \<open>empty_object\<close> is the literal \<^verbatim>\<open>{}\<close>.
\<close>

record jsobj =
  own :: obj
  inherits :: bool

definition empty_object :: jsobj where
  "empty_object = \<lparr>own = Map.empty, inherits = True\<rparr>"

text \<open>
  \<^verbatim>\<open>utils.serialize(doc, mapping)\<close> is a parameter of the model; it returns the object that
  \<^verbatim>\<open>indexDoc\<close> goes on to assign to.
\<close>

type_synonym 'm serializer = "doc \<Rightarrow> 'm \<Rightarrow> jsobj"

text \<open>\<^verbatim>\<open>!esOptions.filter || esOptions.filter(doc)\<close>\<close>

definition passes_filter :: "'m esOptions \<Rightarrow> doc \<Rightarrow> bool" where
  "passes_filter opts d = (case es_filter opts of None \<Rightarrow> True | Some f \<Rightarrow> f d)"

section \<open>Document methods\<close>

text \<open>
  A field list argument is a string or an array of strings; \<^verbatim>\<open>indexDoc\<close> and
  \<^verbatim>\<open>unsetFields\<close> wrap a string into a one-element array. An array is truthy, a string is
  truthy unless empty.
\<close>

datatype fields_arg = FString string | FArray "string list"

fun as_array :: "fields_arg \<Rightarrow> string list" where
  "as_array (FString s) = [s]"
| "as_array (FArray fs) = fs"

fun truthy_fields :: "fields_arg option \<Rightarrow> bool" where
  "truthy_fields None = False"
| "truthy_fields (Some (FString s)) = (s \<noteq> [])"
| "truthy_fields (Some (FArray fs)) = True"

text \<open>
  The \<^verbatim>\<open>update\<close> argument of \<^verbatim>\<open>indexDoc\<close>: a boolean, or an object \<^verbatim>\<open>{unset: ...}\<close> whose
  property may be \<^verbatim>\<open>undefined\<close>. An object is truthy.
\<close>

datatype update_arg = UBool bool | UObj "fields_arg option"

fun truthy_update :: "update_arg \<Rightarrow> bool" where
  "truthy_update (UBool b) = b"
| "truthy_update (UObj u) = True"

fun update_unset :: "update_arg \<Rightarrow> fields_arg option" where
  "update_unset (UBool b) = None"
| "update_unset (UObj u) = u"

text \<open>
  \<^verbatim>\<open>body[field] = null\<close>. An own property is overwritten. Otherwise, for the name
  \<^verbatim>\<open>__proto__\<close> on an object that inherits from \<^verbatim>\<open>Object.prototype\<close>, the assignment runs
  the inherited setter: the prototype of the object becomes \<^verbatim>\<open>null\<close> and no property is
  created. In every other case the property is created.
\<close>

definition assign_null :: "string \<Rightarrow> jsobj \<Rightarrow> jsobj" where
  "assign_null field b =
     (if field = ''__proto__'' \<and> own b field = None \<and> inherits b
      then b\<lparr>inherits := False\<rparr>
      else b\<lparr>own := (own b)(field \<mapsto> JNull)\<rparr>)"

text \<open>\<^verbatim>\<open>fields.forEach(field => { body[field] = null; })\<close>\<close>

definition set_nulls :: "string list \<Rightarrow> jsobj \<Rightarrow> jsobj" where
  "set_nulls fs body = foldl (\<lambda>b field. assign_null field b) body fs"

text \<open>
  \<^verbatim>\<open>_indexDoc(id, body, esOptions, resolve, reject, update)\<close>: one call of
  \<^verbatim>\<open>client.update\<close> or \<^verbatim>\<open>client.index\<close>. When the call was an update and fails with
  status 404 the function calls itself without the \<^verbatim>\<open>update\<close> argument. The function
  only hands its \<^verbatim>\<open>body\<close> on; the model passes it the own properties.
\<close>

definition index_request :: "string \<Rightarrow> obj \<Rightarrow> 'm esOptions \<Rightarrow> bool \<Rightarrow> request" where
  "index_request i body opts update =
     \<lparr>rq_method = (if update then Update else Index),
      rq_index = es_index opts,
      rq_type = es_type opts,
      rq_id = i,
      rq_body = (if update then PartialDoc body else Source body)\<rparr>"

function priv_indexDoc ::
  "string \<Rightarrow> obj \<Rightarrow> 'm esOptions \<Rightarrow> bool \<Rightarrow> world \<Rightarrow> outcome \<times> world" where
  "priv_indexDoc i body opts update w =
     (case client_call (index_request i body opts update) w of
        (None, w') \<Rightarrow> (Pending, w')
      | (Some (Inl err), w') \<Rightarrow>
          (if update \<and> status err = Some 404
           then priv_indexDoc i body opts False w'
           else (Rejected err, w'))
      | (Some (Inr result), w') \<Rightarrow> (Resolved result, w'))"
  by pat_completeness auto
termination
  by (relation "measure (\<lambda>(i, body, opts, update, w). if update then 1 else 0)") auto

text \<open>\<^verbatim>\<open>indexDoc(update, callback)\<close>, the document method \<^verbatim>\<open>esIndex\<close>.\<close>

definition indexDoc ::
  "'m serializer \<Rightarrow> 'm esOptions \<Rightarrow> update_arg \<Rightarrow> doc \<Rightarrow> world \<Rightarrow> outcome \<times> world" where
  "indexDoc serialize opts update self w =
     (let body = serialize self (es_mapping opts);
          body' = (if truthy_update update \<and> truthy_fields (update_unset update)
                   then set_nulls (as_array (the (update_unset update))) body
                   else body)
      in priv_indexDoc (doc_id self) (own body') opts (truthy_update update) w)"

text \<open>
  \<^verbatim>\<open>fields.map(field => `ctx._source.remove("${field}")`).join(';')\<close>; \<open>join\<close> is
  \<^verbatim>\<open>Array.prototype.join\<close>.
\<close>

definition removal :: "string \<Rightarrow> string" where
  \<open>removal field = ''ctx._source.remove("'' @ field @ ''")''\<close>

fun join :: "string \<Rightarrow> string list \<Rightarrow> string" where
  "join sep [] = []"
| "join sep [x] = x"
| "join sep (x # y # ys) = x @ sep @ join sep (y # ys)"

text \<open>\<^verbatim>\<open>unsetFields(fields, callback)\<close>, the document method \<^verbatim>\<open>esUnset\<close>.\<close>

definition unset_body :: "'m esOptions \<Rightarrow> string list \<Rightarrow> payload" where
  "unset_body opts fs =
     (if es_script opts
      then ScriptBody (join '';'' (map removal fs))
      else PartialDoc (own (set_nulls fs empty_object)))"

definition unset_request :: "'m esOptions \<Rightarrow> string list \<Rightarrow> doc \<Rightarrow> request" where
  "unset_request opts fs self =
     \<lparr>rq_method = Update, rq_index = es_index opts, rq_type = es_type opts,
      rq_id = doc_id self, rq_body = unset_body opts fs\<rparr>"

definition unsetFields ::
  "'m esOptions \<Rightarrow> fields_arg \<Rightarrow> doc \<Rightarrow> world \<Rightarrow> outcome \<times> world" where
  "unsetFields opts fs self w =
     (case client_call (unset_request opts (as_array fs) self) w of
        (None, w') \<Rightarrow> (Pending, w')
      | (Some (Inl err), w') \<Rightarrow> (Rejected err, w')
      | (Some (Inr result), w') \<Rightarrow> (Resolved result, w'))"

text \<open>
  \<^verbatim>\<open>removeDoc(callback)\<close>, the document method \<^verbatim>\<open>esRemove\<close>. The callback of
  \<^verbatim>\<open>client.delete\<close> rejects on any truthy \<^verbatim>\<open>err\<close> and otherwise calls \<^verbatim>\<open>resolve()\<close>
  without a value.
\<close>

definition remove_request :: "'m esOptions \<Rightarrow> doc \<Rightarrow> request" where
  "remove_request opts self =
     \<lparr>rq_method = Delete, rq_index = es_index opts, rq_type = es_type opts,
      rq_id = doc_id self, rq_body = NoBody\<rparr>"

definition removeDoc :: "'m esOptions \<Rightarrow> doc \<Rightarrow> world \<Rightarrow> outcome \<times> world" where
  "removeDoc opts self w =
     (case client_call (remove_request opts self) w of
        (None, w') \<Rightarrow> (Pending, w')
      | (Some (Inl err), w') \<Rightarrow> (Rejected err, w')
      | (Some (Inr result), w') \<Rightarrow> (Resolved JUndefined, w'))"

section \<open>Save hooks\<close>

text \<open>
  \<^verbatim>\<open>preSave(next)\<close>: attaches the pending mutation context. \<^verbatim>\<open>utils.getUndefineds\<close> is
  a parameter.
\<close>

definition preSave :: "(doc \<Rightarrow> 'm \<Rightarrow> string list) \<Rightarrow> 'm esOptions \<Rightarrow> doc \<Rightarrow> doc" where
  "preSave getUndefineds opts this =
     (let this1 = this\<lparr>d_mexp := Some \<lparr>wasNew = Some (isNew this), unset = None\<rparr>\<rparr>
      in if \<not> isNew this1
         then this1\<lparr>d_mexp := Some \<lparr>wasNew = Some (isNew this),
                 unset = Some (getUndefineds this1 (es_mapping opts))\<rparr>\<rparr>
         else this1)"

text \<open>\<^verbatim>\<open>doc.emit(name, err, res); doc.constructor.emit(name, err, res);\<close>\<close>

definition emit_both :: "doc \<Rightarrow> string \<Rightarrow> error option \<Rightarrow> jsval \<Rightarrow> world \<Rightarrow> world" where
  "emit_both d name err res w =
     act (Emit Collection name err res) (act (Emit (Instance (doc_id d)) name err res) w)"

text \<open>
  \<^verbatim>\<open>data.wasNew\<close> and \<^verbatim>\<open>data.unset && data.unset.length\<close> as conditions;
  \<^verbatim>\<open>data.wasNew ? false : { unset: data.unset }\<close>.
\<close>

definition truthy_wasNew :: "mexp \<Rightarrow> bool" where
  "truthy_wasNew data = (wasNew data = Some True)"

definition has_unset :: "mexp \<Rightarrow> bool" where
  "has_unset data = (case unset data of None \<Rightarrow> False | Some fs \<Rightarrow> fs \<noteq> [])"

definition index_arg :: "mexp \<Rightarrow> update_arg" where
  "index_arg data =
     (if truthy_wasNew data then UBool False else UObj (map_option FArray (unset data)))"

text \<open>
  The promise chain of \<^verbatim>\<open>postSave\<close>:
  \<^verbatim>\<open>doc.esIndex(...).then(res => script && unset && unset.length ? doc.esUnset(unset) : res)\<close>
  followed by the handlers that emit \<^verbatim>\<open>es-indexed\<close>. A promise that never settles
  runs none of them.
\<close>

definition index_then_unset ::
  "'m serializer \<Rightarrow> 'm esOptions \<Rightarrow> mexp \<Rightarrow> doc \<Rightarrow> world \<Rightarrow> outcome \<times> world" where
  "index_then_unset serialize opts data d w =
     (case indexDoc serialize opts (index_arg data) d w of
        (Resolved res, w') \<Rightarrow>
          (if es_script opts \<and> has_unset data
           then unsetFields opts (FArray (the (unset data))) d w'
           else (Resolved res, w'))
      | (Rejected err, w') \<Rightarrow> (Rejected err, w')
      | (Pending, w') \<Rightarrow> (Pending, w'))"

definition emit_indexed :: "doc \<Rightarrow> outcome \<times> world \<Rightarrow> world" where
  "emit_indexed d ow =
     (case ow of
        (Resolved res, w) \<Rightarrow> emit_both d ''es-indexed'' None res w
      | (Rejected err, w) \<Rightarrow> emit_both d ''es-indexed'' (Some err) JUndefined w
      | (Pending, w) \<Rightarrow> w)"

text \<open>
  \<^verbatim>\<open>doc.esRemove((err, res) => { emit 'es-removed' twice })\<close>, as \<^verbatim>\<open>postSave\<close> and
  \<^verbatim>\<open>postRemove\<close> call it.
\<close>

definition remove_and_emit :: "'m esOptions \<Rightarrow> doc \<Rightarrow> world \<Rightarrow> world" where
  "remove_and_emit opts d w =
     (case removeDoc opts d w of
        (Resolved res, w') \<Rightarrow> emit_both d ''es-removed'' None res w'
      | (Rejected err, w') \<Rightarrow> emit_both d ''es-removed'' (Some err) JUndefined w'
      | (Pending, w') \<Rightarrow> w')"

text \<open>
  \<^verbatim>\<open>postSave(doc)\<close>, registered for \<^verbatim>\<open>save\<close> and for \<^verbatim>\<open>findOneAndUpdate\<close>. The argument
  is \<open>None\<close> when the hook receives \<^verbatim>\<open>null\<close>. The document comes back without its
  \<^verbatim>\<open>_mexp\<close>.
\<close>

definition postSave ::
  "'m serializer \<Rightarrow> 'm esOptions \<Rightarrow> doc option \<Rightarrow> world \<Rightarrow> doc option \<times> world" where
  "postSave serialize opts arg w =
     (case arg of
        None \<Rightarrow> (None, w)
      | Some d \<Rightarrow>
          if \<not> has_esOptions d then (Some d, w)
          else
            let data = (case d_mexp d of Some m \<Rightarrow> m | None \<Rightarrow> no_mexp);
                d' = d\<lparr>d_mexp := None\<rparr>
            in if passes_filter opts d'
               then (Some d', emit_indexed d' (index_then_unset serialize opts data d' w))
               else
                 let w1 = emit_both d' ''es-filtered'' None JUndefined w
                 in if \<not> truthy_wasNew data
                    then (Some d', remove_and_emit opts d' w1)
                    else (Some d', w1))"

text \<open>\<^verbatim>\<open>postRemove(doc)\<close>, registered for \<^verbatim>\<open>remove\<close> and \<^verbatim>\<open>findOneAndRemove\<close>.\<close>

definition postRemove :: "'m esOptions \<Rightarrow> doc option \<Rightarrow> world \<Rightarrow> world" where
  "postRemove opts arg w =
     (case arg of
        None \<Rightarrow> w
      | Some d \<Rightarrow> if has_esOptions d then remove_and_emit opts d w else w)"

text \<open>
  A save of a document: mongoose runs \<^verbatim>\<open>preSave\<close>, persists (after which the object
  is no longer new), then runs \<^verbatim>\<open>postSave\<close> on the same object.
\<close>

definition save ::
  "(doc \<Rightarrow> 'm \<Rightarrow> string list) \<Rightarrow> 'm serializer \<Rightarrow> 'm esOptions \<Rightarrow> doc \<Rightarrow> world
     \<Rightarrow> doc option \<times> world" where
  "save getUndefineds serialize opts d w =
     postSave serialize opts (Some ((preSave getUndefineds opts d)\<lparr>isNew := False\<rparr>)) w"

section \<open>The bulk queue\<close>

text \<open>
  An operation descriptor as \<^verbatim>\<open>synchronize\<close> builds it: the header
  \<^verbatim>\<open>{index: {_index, _type, _id}}\<close> and the serialized document.
\<close>

record op =
  op_index :: string
  op_type :: string
  op_id :: string
  op_body :: obj

text \<open>
  Modelled from the spec: the Bulk Queue, the class \<^verbatim>\<open>Bulker\<close> of \<^verbatim>\<open>./bulker\<close> that
  \<^verbatim>\<open>lib/index.js\<close> requires and whose source is not at hand. The queue accumulates
  operation descriptors in its current batch (\<open>buffer\<close>) and has a configured size
  threshold. \<open>inflight\<close> holds the batches that were sent and whose request has not
  settled yet, oldest first; \<open>settled\<close> the batches whose request has settled.
\<close>

record bulker =
  threshold :: nat
  buffer :: "op list"
  inflight :: "op list list"
  settled :: "op list list"

text \<open>Modelled from the spec: a queue as \<^verbatim>\<open>new Bulker(client, options)\<close> leaves it.\<close>

definition new_bulker :: "nat \<Rightarrow> bulker" where
  "new_bulker n = \<lparr>threshold = n, buffer = [], inflight = [], settled = []\<rparr>"

text \<open>Modelled from the spec: \<^verbatim>\<open>filled()\<close> reports whether the current batch is non-empty.\<close>

definition filled :: "bulker \<Rightarrow> bool" where
  "filled b = (buffer b \<noteq> [])"

text \<open>
  Modelled from the spec: \<^verbatim>\<open>flush()\<close> sends the accumulated batch to the search backend
  as one request, then clears it; it is a no-op when the batch is empty.
\<close>

definition flush :: "bulker \<Rightarrow> bulker" where
  "flush b =
     (if buffer b = [] then b
      else b\<lparr>inflight := inflight b @ [buffer b], buffer := []\<rparr>)"

text \<open>
  Modelled from the spec: \<^verbatim>\<open>push(header, payload)\<close> appends an operation descriptor to
  the current batch and returns whether a flush was triggered as a side effect, which
  happens when the threshold is reached.
\<close>

definition push :: "op \<Rightarrow> bulker \<Rightarrow> bool \<times> bulker" where
  "push x b =
     (let b' = b\<lparr>buffer := buffer b @ [x]\<rparr>
      in if threshold b' \<le> length (buffer b') then (True, flush b') else (False, b'))"

text \<open>
  Modelled from the spec: when the request of a flush settles the queue emits \<^verbatim>\<open>sent\<close>
  with the number of operations sent, or \<^verbatim>\<open>error\<close> with the backend error. Requests
  settle oldest first; there is nothing to settle when none is in flight.
\<close>

datatype bulk_event = Sent nat | Failed error

definition settle :: "error option \<Rightarrow> bulker \<Rightarrow> (bulk_event \<times> bulker) option" where
  "settle r b =
     (case inflight b of
        [] \<Rightarrow> None
      | x # xs \<Rightarrow>
          Some (case r of None \<Rightarrow> Sent (length x) | Some err \<Rightarrow> Failed err,
                b\<lparr>inflight := xs, settled := settled b @ [x]\<rparr>))"

text \<open>Modelled from the spec: pushing a sequence of descriptors, one \<^verbatim>\<open>push\<close> each.\<close>

fun push_all :: "op list \<Rightarrow> bulker \<Rightarrow> bulker" where
  "push_all [] b = b"
| "push_all (x # xs) b = push_all xs (snd (push x b))"

section \<open>Synchronize\<close>

text \<open>
  What a run of \<^verbatim>\<open>synchronize\<close> does to the outside, apart from the queue:
  \<^verbatim>\<open>stream.pause()\<close>, \<^verbatim>\<open>stream.resume()\<close>, the events emitted on the model
  (\<^verbatim>\<open>es-bulk-data\<close>, \<^verbatim>\<open>es-bulk-filtered\<close>, \<^verbatim>\<open>es-bulk-sent\<close>, \<^verbatim>\<open>es-bulk-error\<close>) and the call of
  \<^verbatim>\<open>client.indices.refresh\<close> on an index.
\<close>

datatype sync_action =
    Pause
  | Resume
  | EmitData doc
  | EmitFiltered doc
  | EmitSent nat
  | EmitError error
  | RefreshCall string

text \<open>
  The state that the closures of one \<^verbatim>\<open>synchronize\<close> call share: the flow state of the
  stream, the variable \<^verbatim>\<open>streamClosed\<close>, whether \<^verbatim>\<open>onError\<close> and \<^verbatim>\<open>onSent\<close> are still
  registered on the queue, the queue, the number of refresh calls whose callback is
  outstanding, and the promise that \<^verbatim>\<open>synchronize\<close> returned.
\<close>

record sync_state =
  paused :: bool
  streamClosed :: bool
  listening :: bool
  queue :: bulker
  awaiting :: nat
  promise :: outcome
  sync_log :: "sync_action list"

definition tell :: "sync_action \<Rightarrow> sync_state \<Rightarrow> sync_state" where
  "tell a st = st\<lparr>sync_log := sync_log st @ [a]\<rparr>"

definition pause :: "sync_state \<Rightarrow> sync_state" where
  "pause st = tell Pause (st\<lparr>paused := True\<rparr>)"

definition resume :: "sync_state \<Rightarrow> sync_state" where
  "resume st = tell Resume (st\<lparr>paused := False\<rparr>)"

text \<open>
  The state after the body of \<^verbatim>\<open>synchronize\<close> has run: the stream flows, both listeners
  are registered on the queue \<^verbatim>\<open>esOptions.bulker || new Bulker(esOptions.client)\<close>.
\<close>

definition synchronize :: "bulker \<Rightarrow> sync_state" where
  "synchronize b =
     \<lparr>paused = False, streamClosed = False, listening = True, queue = b,
      awaiting = 0, promise = Pending, sync_log = []\<rparr>"

definition finalize :: "'m esOptions \<Rightarrow> sync_state \<Rightarrow> sync_state" where
  "finalize opts st =
     tell (RefreshCall (es_index opts)) (st\<lparr>listening := False, awaiting := Suc (awaiting st)\<rparr>)"

definition onError :: "'m esOptions \<Rightarrow> error \<Rightarrow> sync_state \<Rightarrow> sync_state" where
  "onError opts err st =
     (let st' = tell (EmitError err) st
      in if streamClosed st' then finalize opts st' else resume st')"

definition onSent :: "'m esOptions \<Rightarrow> nat \<Rightarrow> sync_state \<Rightarrow> sync_state" where
  "onSent opts len st =
     (let st' = tell (EmitSent len) st
      in if streamClosed st' then finalize opts st' else resume st')"

definition sync_op :: "'m serializer \<Rightarrow> 'm esOptions \<Rightarrow> doc \<Rightarrow> op" where
  "sync_op serialize opts d =
     \<lparr>op_index = es_index opts, op_type = es_type opts, op_id = doc_id d,
      op_body = own (serialize d (es_mapping opts))\<rparr>"

text \<open>The handler of the stream's \<^verbatim>\<open>data\<close> event.\<close>

definition onData :: "'m serializer \<Rightarrow> 'm esOptions \<Rightarrow> doc \<Rightarrow> sync_state \<Rightarrow> sync_state" where
  "onData serialize opts d st =
     (let st1 = pause st;
          (sending, st2) =
            (if passes_filter opts d
             then (let (s, b) = push (sync_op serialize opts d) (queue st1)
                   in (s, tell (EmitData d) (st1\<lparr>queue := b\<rparr>)))
             else (False, tell (EmitFiltered d) st1))
      in if \<not> sending then resume st2 else st2)"

text \<open>The handler of the stream's \<^verbatim>\<open>close\<close> event.\<close>

definition onClose :: "'m esOptions \<Rightarrow> sync_state \<Rightarrow> sync_state" where
  "onClose opts st =
     (let st' = st\<lparr>streamClosed := True\<rparr>
      in if filled (queue st') then st'\<lparr>queue := flush (queue st')\<rparr> else finalize opts st')"

text \<open>
  The callback of the refresh call, \<^verbatim>\<open>(err, result) => err ? reject(err) : resolve(result)\<close>.
  A promise settles once; later calls of \<^verbatim>\<open>resolve\<close> or \<^verbatim>\<open>reject\<close> change nothing.
\<close>

definition onRefreshed :: "response \<Rightarrow> sync_state \<Rightarrow> sync_state" where
  "onRefreshed r st =
     (let st' = st\<lparr>awaiting := awaiting st - 1\<rparr>
      in if promise st' \<noteq> Pending then st'
         else st'\<lparr>promise := (case r of Inl err \<Rightarrow> Rejected err | Inr result \<Rightarrow> Resolved result)\<rparr>)"

text \<open>
  What can happen to a running session. The stream delivers a document only while it
  flows and has not closed, and closes once; that it stays open while it is paused is
  not assumed. A flush settles only when one is in flight; the queue then calls the
  listeners of the session that are still registered, and none once \<^verbatim>\<open>finalize\<close> has
  removed them. The refresh callback fires only for an outstanding refresh call. A
  step that cannot happen is \<open>None\<close>.
\<close>

datatype event =
    Data doc
  | Close
  | Flushed "error option"
  | Refreshed response

fun step :: "'m serializer \<Rightarrow> 'm esOptions \<Rightarrow> sync_state \<Rightarrow> event \<Rightarrow> sync_state option" where
  "step serialize opts st (Data d) =
     (if paused st \<or> streamClosed st then None else Some (onData serialize opts d st))"
| "step serialize opts st Close =
     (if streamClosed st then None else Some (onClose opts st))"
| "step serialize opts st (Flushed r) =
     (case settle r (queue st) of
        None \<Rightarrow> None
      | Some (ev, b) \<Rightarrow>
          (let st' = st\<lparr>queue := b\<rparr>
           in if \<not> listening st' then Some st'
              else (case ev of
                      Sent len \<Rightarrow> Some (onSent opts len st')
                    | Failed err \<Rightarrow> Some (onError opts err st'))))"
| "step serialize opts st (Refreshed r) =
     (if awaiting st = 0 then None else Some (onRefreshed r st))"

fun run :: "'m serializer \<Rightarrow> 'm esOptions \<Rightarrow> sync_state \<Rightarrow> event list \<Rightarrow> sync_state option" where
  "run serialize opts st [] = Some st"
| "run serialize opts st (e # es) =
     (case step serialize opts st e of
        None \<Rightarrow> None
      | Some st' \<Rightarrow> run serialize opts st' es)"

text \<open>The number of refresh calls that a session has issued.\<close>

definition refreshes :: "sync_state \<Rightarrow> nat" where
  "refreshes st = length (filter (\<lambda>a. case a of RefreshCall i \<Rightarrow> True | _ \<Rightarrow> False) (sync_log st))"



section \<open>The invariant of a session\<close>

text \<open>
  What holds in every state that a session reaches: at most one flush is in flight and
  the current batch is empty while it is; an open session is paused exactly while a
  flush is in flight, still listens and has not refreshed; a closed session has an empty
  batch, listens exactly as long as it has not refreshed, which it does at most once,
  and waits for a flush as long as it listens; the promise is pending until the
  callback of the one refresh call has fired.
\<close>

definition sync_inv :: "sync_state \<Rightarrow> bool" where
  "sync_inv st =
     (length (inflight (queue st)) \<le> 1
      \<and> (inflight (queue st) \<noteq> [] \<longrightarrow> buffer (queue st) = [])
      \<and> (\<not> streamClosed st \<longrightarrow>
            (paused st \<longleftrightarrow> inflight (queue st) \<noteq> []) \<and> listening st \<and> refreshes st = 0)
      \<and> (streamClosed st \<longrightarrow>
            buffer (queue st) = [] \<and> (listening st \<longleftrightarrow> refreshes st = 0)
            \<and> refreshes st \<le> 1 \<and> (listening st \<longrightarrow> inflight (queue st) \<noteq> []))
      \<and> (refreshes st = 0 \<longrightarrow> awaiting st = 0 \<and> promise st = Pending)
      \<and> awaiting st \<le> 1
      \<and> (awaiting st = 1 \<longrightarrow> promise st = Pending))"

section \<open>Example values\<close>

text \<open>
  A not-found error as the backend reports it, options of a model \<^verbatim>\<open>User\<close> without
  filter and without scripts, a serializer that returns an ordinary object holding
  every stored field, and a persisted document.
\<close>

definition not_found :: error where
  "not_found = \<lparr>status = Some 404, message = ''Not Found''\<rparr>"

definition sample_opts :: "unit esOptions" where
  "sample_opts =
     \<lparr>es_index = ''users'', es_type = ''user'', es_script = False,
      es_filter = None, es_mapping = ()\<rparr>"

definition sample_serialize :: "unit serializer" where
  "sample_serialize d m = \<lparr>own = paths d, inherits = True\<rparr>"

definition sample_doc :: doc where
  "sample_doc =
     \<lparr>doc_id = ''42'', isNew = False, d_mexp = None, has_esOptions = True,
      paths = [''name'' \<mapsto> JStr ''Ann'']\<rparr>"


text \<open>
  A backend failure that is not a not-found error, a \<^verbatim>\<open>getUndefineds\<close> that finds the
  field \<^verbatim>\<open>age\<close> undefined, options with scripted unset, options whose filter rejects
  the document with id 2, numbered documents and their operation descriptors.
\<close>

definition server_error :: error where
  "server_error = \<lparr>status = Some 500, message = ''Internal Server Error''\<rparr>"

definition sample_getUndefineds :: "doc \<Rightarrow> unit \<Rightarrow> string list" where
  "sample_getUndefineds d m = [''age'']"

definition script_opts :: "unit esOptions" where
  "script_opts = sample_opts\<lparr>es_script := True\<rparr>"

definition picky_opts :: "unit esOptions" where
  "picky_opts = sample_opts\<lparr>es_filter := Some (\<lambda>d. doc_id d \<noteq> ''2'')\<rparr>"

definition numbered :: "string \<Rightarrow> doc" where
  "numbered i = sample_doc\<lparr>doc_id := i\<rparr>"

definition three_ops :: "op list" where
  "three_ops =
     [sync_op sample_serialize sample_opts (numbered ''1''),
      sync_op sample_serialize sample_opts (numbered ''2''),
      sync_op sample_serialize sample_opts (numbered ''3'')]"

section \<open>The scripted backend\<close>

lemma client_call_reply [simp]:
  "replies w = r # rs \<Longrightarrow>
   client_call rq w = (Some r, w\<lparr>replies := rs, log := log w @ [Request rq]\<rparr>)"
  by (simp add: client_call_def act_def)

lemma client_call_silent [simp]:
  "replies w = [] \<Longrightarrow> client_call rq w = (None, w\<lparr>log := log w @ [Request rq]\<rparr>)"
  by (simp add: client_call_def act_def)

lemma client_call_log: "log (snd (client_call rq w)) = log w @ [Request rq]"
  by (simp add: client_call_def act_def split: list.splits)

section \<open>Index or update\<close>

declare priv_indexDoc.simps [simp del]

lemma priv_indexDoc_index:
  "priv_indexDoc i body opts False w =
     (case client_call (index_request i body opts False) w of
        (None, w') \<Rightarrow> (Pending, w')
      | (Some (Inl err), w') \<Rightarrow> (Rejected err, w')
      | (Some (Inr result), w') \<Rightarrow> (Resolved result, w'))"
  by (subst priv_indexDoc.simps) (simp split: prod.splits option.splits sum.splits)

lemma priv_indexDoc_update:
  "priv_indexDoc i body opts True w =
     (case client_call (index_request i body opts True) w of
        (None, w') \<Rightarrow> (Pending, w')
      | (Some (Inl err), w') \<Rightarrow>
          (if status err = Some 404 then priv_indexDoc i body opts False w'
           else (Rejected err, w'))
      | (Some (Inr result), w') \<Rightarrow> (Resolved result, w'))"
  by (subst priv_indexDoc.simps) (simp split: prod.splits option.splits sum.splits)

lemma priv_indexDoc_calls:
  "length (log (snd (priv_indexDoc i body opts update w))) \<le> length (log w) + 2"
proof (cases update)
  case False
  then show ?thesis
    using client_call_log [of "index_request i body opts False" w]
    by (auto simp: priv_indexDoc_index split: prod.splits option.splits sum.splits)
next
  case True
  have once: "length (log (snd (priv_indexDoc i body opts False w'))) \<le> length (log w') + 1"
    for w'
    using client_call_log [of "index_request i body opts False" w']
    by (auto simp: priv_indexDoc_index split: prod.splits option.splits sum.splits)
  show ?thesis
  proof (cases "client_call (index_request i body opts True) w")
    case (Pair r w')
    have len: "length (log w') = length (log w) + 1"
      using client_call_log [of "index_request i body opts True" w] Pair by simp
    show ?thesis
      using True Pair len once [of w']
      by (auto simp: priv_indexDoc_update split: option.splits sum.splits)
  qed
qed

text \<open>Unfolding sets for evaluating the model on the example values.\<close>

lemmas sample_defs =
  sample_opts_def sample_doc_def sample_serialize_def sample_getUndefineds_def script_opts_def
  picky_opts_def numbered_def not_found_def server_error_def

lemmas sync_defs =
  synchronize_def new_bulker_def onData_def onClose_def onSent_def onError_def onRefreshed_def
  finalize_def pause_def resume_def tell_def push_def flush_def filled_def settle_def
  passes_filter_def sync_op_def Let_def

lemmas hook_defs =
  save_def preSave_def postSave_def passes_filter_def no_mexp_def truthy_wasNew_def
  index_then_unset_def index_arg_def indexDoc_def priv_indexDoc_update priv_indexDoc_index
  has_unset_def emit_indexed_def emit_both_def act_def remove_and_emit_def removeDoc_def
  unsetFields_def set_nulls_def assign_null_def empty_object_def Let_def

text \<open>
  C3. A call of \<^verbatim>\<open>_indexDoc\<close> with the update flag set whose update is answered with a
  status 404 error is retried exactly once, as a full index write: the log holds the
  update request, with the body as the \<^verbatim>\<open>doc\<close> of a partial update, followed by one
  index request for the same document with the plain body. The retry is not retried:
  whatever the backend answers to it, error (a second 404 included) or result, settles
  the call, and a retry that is never answered leaves two requests and nothing more.
  With the flag unset any error, 404 included, rejects after the single index request.
  No call ever sends more than two requests.
\<close>

theorem priv_indexDoc_retries_once:
  "(status e = Some 404 \<longrightarrow>
      priv_indexDoc i body opts True (w\<lparr>replies := Inl e # r # rs\<rparr>) =
        (case r of Inl e' \<Rightarrow> Rejected e' | Inr result \<Rightarrow> Resolved result,
         w\<lparr>replies := rs,
           log := log w @
             [Request \<lparr>rq_method = Update, rq_index = es_index opts, rq_type = es_type opts,
                       rq_id = i, rq_body = PartialDoc body\<rparr>,
              Request \<lparr>rq_method = Index, rq_index = es_index opts, rq_type = es_type opts,
                       rq_id = i, rq_body = Source body\<rparr>]\<rparr>))
   \<and> (status e = Some 404 \<longrightarrow>
      priv_indexDoc i body opts True (w\<lparr>replies := [Inl e]\<rparr>) =
        (Pending,
         w\<lparr>replies := [],
           log := log w @
             [Request \<lparr>rq_method = Update, rq_index = es_index opts, rq_type = es_type opts,
                       rq_id = i, rq_body = PartialDoc body\<rparr>,
              Request \<lparr>rq_method = Index, rq_index = es_index opts, rq_type = es_type opts,
                       rq_id = i, rq_body = Source body\<rparr>]\<rparr>))
   \<and> priv_indexDoc i body opts False (w\<lparr>replies := Inl e # rs\<rparr>) =
        (Rejected e,
         w\<lparr>replies := rs,
           log := log w @
             [Request \<lparr>rq_method = Index, rq_index = es_index opts, rq_type = es_type opts,
                       rq_id = i, rq_body = Source body\<rparr>]\<rparr>)
   \<and> length (log (snd (priv_indexDoc i body opts update w))) \<le> length (log w) + 2"
proof (intro conjI impI)
  show "length (log (snd (priv_indexDoc i body opts update w))) \<le> length (log w) + 2"
    by (rule priv_indexDoc_calls)
qed (simp_all add: priv_indexDoc_update priv_indexDoc_index index_request_def split: sum.splits)

theorem priv_indexDoc_retries_once_witness:
  "status not_found = Some 404 \<and>
   priv_indexDoc ''42'' [''name'' \<mapsto> JStr ''Ann''] sample_opts True
       \<lparr>replies = [Inl not_found, Inl not_found], log = []\<rparr> =
     (Rejected not_found,
      \<lparr>replies = [],
       log = [Request \<lparr>rq_method = Update, rq_index = ''users'', rq_type = ''user'',
                       rq_id = ''42'', rq_body = PartialDoc [''name'' \<mapsto> JStr ''Ann'']\<rparr>,
              Request \<lparr>rq_method = Index, rq_index = ''users'', rq_type = ''user'',
                       rq_id = ''42'', rq_body = Source [''name'' \<mapsto> JStr ''Ann'']\<rparr>]\<rparr>)"
  using priv_indexDoc_retries_once [where e = not_found and i = "''42''"
      and body = "[''name'' \<mapsto> JStr ''Ann'']" and opts = sample_opts
      and w = "\<lparr>replies = [], log = []\<rparr>" and r = "Inl not_found" and rs = "[]"]
  by (simp add: not_found_def sample_opts_def)

section \<open>Remove\<close>

text \<open>
  C4, as the claim states it, fails: when the backend answers the delete with a
  not-found error, \<^verbatim>\<open>removeDoc\<close> rejects with that error.
\<close>

theorem removeDoc_not_found_counterexample:
  "fst (removeDoc sample_opts sample_doc \<lparr>replies = [Inl not_found], log = []\<rparr>) =
     Rejected not_found"
  by (simp add: removeDoc_def)

text \<open>
  C4, amended. \<^verbatim>\<open>removeDoc\<close> sends one delete request. Every error that the backend
  reports on it, a not-found error like any other, is surfaced as a rejection carrying
  that error; the call resolves (without a value) only when the backend reports no
  error.
\<close>

theorem removeDoc_surfaces_every_error:
  "removeDoc opts self (w\<lparr>replies := Inl err # rs\<rparr>) =
     (Rejected err, w\<lparr>replies := rs, log := log w @ [Request (remove_request opts self)]\<rparr>)
   \<and> removeDoc opts self (w\<lparr>replies := Inr result # rs\<rparr>) =
     (Resolved JUndefined,
      w\<lparr>replies := rs, log := log w @ [Request (remove_request opts self)]\<rparr>)"
  by (simp add: removeDoc_def)

section \<open>Unset fields\<close>

lemma own_assign_null_other: "k \<noteq> field \<Longrightarrow> own (assign_null field b) k = own b k"
  by (simp add: assign_null_def)

lemma own_assign_null_plain:
  "field \<noteq> ''__proto__'' \<Longrightarrow> own (assign_null field b) = (own b)(field \<mapsto> JNull)"
  by (simp add: assign_null_def)

lemma own_assign_null_kept: "own b k = Some JNull \<Longrightarrow> own (assign_null field b) k = Some JNull"
  by (simp add: assign_null_def)

lemma set_nulls_Cons: "set_nulls (f # fs) b = set_nulls fs (assign_null f b)"
  by (simp add: set_nulls_def)

lemma set_nulls_other: "k \<notin> set fs \<Longrightarrow> own (set_nulls fs b) k = own b k"
proof (induction fs arbitrary: b)
  case Nil
  then show ?case by (simp add: set_nulls_def)
next
  case (Cons f fs)
  then show ?case by (simp add: set_nulls_Cons own_assign_null_other)
qed

lemma set_nulls_kept: "own b k = Some JNull \<Longrightarrow> own (set_nulls fs b) k = Some JNull"
proof (induction fs arbitrary: b)
  case Nil
  then show ?case by (simp add: set_nulls_def)
next
  case (Cons f fs)
  then show ?case by (simp add: set_nulls_Cons own_assign_null_kept)
qed

lemma set_nulls_listed:
  "f \<in> set fs \<Longrightarrow> f \<noteq> ''__proto__'' \<Longrightarrow> own (set_nulls fs b) f = Some JNull"
proof (induction fs arbitrary: b)
  case Nil
  then show ?case by simp
next
  case (Cons g fs)
  show ?case
  proof (cases "f = g")
    case True
    with Cons.prems have "own (assign_null g b) f = Some JNull"
      by (simp add: own_assign_null_plain)
    then show ?thesis by (simp add: set_nulls_Cons set_nulls_kept)
  next
    case False
    with Cons show ?thesis by (simp add: set_nulls_Cons)
  qed
qed







section \<open>Save hooks\<close>




lemma postSave_hooked:
  "has_esOptions d \<Longrightarrow>
   postSave serialize opts (Some d) w =
     (let data = (case d_mexp d of Some m \<Rightarrow> m | None \<Rightarrow> no_mexp);
          d' = d\<lparr>d_mexp := None\<rparr>
      in (Some d',
          if passes_filter opts d'
          then emit_indexed d' (index_then_unset serialize opts data d' w)
          else if \<not> truthy_wasNew data
               then remove_and_emit opts d' (emit_both d' ''es-filtered'' None JUndefined w)
               else emit_both d' ''es-filtered'' None JUndefined w))"
  by (simp add: postSave_def Let_def)

lemma save_new:
  assumes "has_esOptions d" and "isNew d"
  shows "save getUndefineds serialize opts d w =
     (let d' = d\<lparr>isNew := False, d_mexp := None\<rparr>
      in (Some d',
          if passes_filter opts d'
          then emit_indexed d'
                 (priv_indexDoc (doc_id d) (own (serialize d' (es_mapping opts))) opts False w)
          else emit_both d' ''es-filtered'' None JUndefined w))"
proof -
  have "index_then_unset serialize opts \<lparr>wasNew = Some True, unset = None\<rparr> d' w' =
      priv_indexDoc (doc_id d') (own (serialize d' (es_mapping opts))) opts False w'" for d' w'
    by (cases "priv_indexDoc (doc_id d') (own (serialize d' (es_mapping opts))) opts False w'")
      (auto simp: index_then_unset_def index_arg_def truthy_wasNew_def indexDoc_def has_unset_def
        split: outcome.splits)
  then show ?thesis
    using assms
    by (simp add: save_def preSave_def postSave_hooked Let_def truthy_wasNew_def)
qed

lemma save_old:
  assumes "has_esOptions d" and "\<not> isNew d"
  shows "save getUndefineds serialize opts d w =
     (let d' = d\<lparr>isNew := False, d_mexp := None\<rparr>;
          u = getUndefineds (d\<lparr>d_mexp := Some \<lparr>wasNew = Some False, unset = None\<rparr>\<rparr>)
                (es_mapping opts)
      in (Some d',
          if passes_filter opts d'
          then emit_indexed d'
                 (case priv_indexDoc (doc_id d)
                         (own (set_nulls u (serialize d' (es_mapping opts)))) opts True w of
                    (Resolved res, w') \<Rightarrow>
                      if es_script opts \<and> u \<noteq> [] then unsetFields opts (FArray u) d' w'
                      else (Resolved res, w')
                  | (Rejected err, w') \<Rightarrow> (Rejected err, w')
                  | (Pending, w') \<Rightarrow> (Pending, w'))
          else remove_and_emit opts d' (emit_both d' ''es-filtered'' None JUndefined w)))"
  using assms
  by (simp add: save_def preSave_def postSave_hooked Let_def truthy_wasNew_def
      index_then_unset_def index_arg_def indexDoc_def has_unset_def
      split: prod.splits outcome.splits)

lemma postSave_bare:
  assumes "has_esOptions d" and "d_mexp d = None"
  shows "postSave serialize opts (Some d) w =
     (Some d,
      if passes_filter opts d
      then emit_indexed d
             (priv_indexDoc (doc_id d) (own (serialize d (es_mapping opts))) opts True w)
      else remove_and_emit opts d (emit_both d ''es-filtered'' None JUndefined w))"
proof -
  have same: "d\<lparr>d_mexp := None\<rparr> = d"
    using assms(2) by simp
  have idx: "index_then_unset serialize opts no_mexp d w =
      priv_indexDoc (doc_id d) (own (serialize d (es_mapping opts))) opts True w"
    by (cases "priv_indexDoc (doc_id d) (own (serialize d (es_mapping opts))) opts True w")
      (auto simp: index_then_unset_def index_arg_def truthy_wasNew_def indexDoc_def has_unset_def
        no_mexp_def split: outcome.splits)
  have "\<not> truthy_wasNew no_mexp"
    by (simp add: no_mexp_def truthy_wasNew_def)
  then show ?thesis
    using assms by (simp add: postSave_hooked Let_def same idx)
qed

text \<open>
  C10, as the claim states it, fails in one point: the partial-update path does lead
  to a full index. For a document without pending mutation context whose update the
  backend answers with a not-found error, the update request is followed by an index
  request with the plain document.
\<close>

theorem postSave_full_index_counterexample:
  "has_esOptions sample_doc \<and> d_mexp sample_doc = None
   \<and> passes_filter sample_opts sample_doc
   \<and> log (snd (postSave sample_serialize sample_opts (Some sample_doc)
                  \<lparr>replies = [Inl not_found, Inr JNull], log = []\<rparr>)) =
       [Request \<lparr>rq_method = Update, rq_index = ''users'', rq_type = ''user'', rq_id = ''42'',
                 rq_body = PartialDoc [''name'' \<mapsto> JStr ''Ann'']\<rparr>,
        Request \<lparr>rq_method = Index, rq_index = ''users'', rq_type = ''user'', rq_id = ''42'',
                 rq_body = Source [''name'' \<mapsto> JStr ''Ann'']\<rparr>,
        Emit (Instance ''42'') ''es-indexed'' None JNull,
        Emit Collection ''es-indexed'' None JNull]"
  by (simp add: sample_defs hook_defs index_request_def)

text \<open>
  C10, amended. When \<^verbatim>\<open>postSave\<close> runs for a document without pending mutation
  context, as for every \<^verbatim>\<open>findOneAndUpdate\<close>, for which \<^verbatim>\<open>preSave\<close> has not run, the
  document is treated as not new, whether it is or not. The argument of \<^verbatim>\<open>esIndex\<close> is
  the update object with an undefined unset list, never \<^verbatim>\<open>false\<close>: when the filter
  passes, the first request is an update of the document whose \<^verbatim>\<open>doc\<close> is the
  serialized document as it is, and a full index of it is requested only as the retry
  after that update was answered with status 404; no unset-fields request is made.
  When the filter rejects the document, the two \<^verbatim>\<open>es-filtered\<close> events are followed by
  a delete request for the document, whose outcome the two \<^verbatim>\<open>es-removed\<close> events carry.
\<close>

theorem postSave_without_context:
  assumes "has_esOptions d" and "d_mexp d = None"
    and "body = own (serialize d (es_mapping opts))"
    and "partial = Request \<lparr>rq_method = Update, rq_index = es_index opts,
           rq_type = es_type opts, rq_id = doc_id d, rq_body = PartialDoc body\<rparr>"
    and "full = Request \<lparr>rq_method = Index, rq_index = es_index opts,
           rq_type = es_type opts, rq_id = doc_id d, rq_body = Source body\<rparr>"
    and "removing = Request \<lparr>rq_method = Delete, rq_index = es_index opts,
           rq_type = es_type opts, rq_id = doc_id d, rq_body = NoBody\<rparr>"
    and "emitted = (\<lambda>name err res.
           [Emit (Instance (doc_id d)) name err res, Emit Collection name err res])"
  shows
    "index_arg no_mexp = UObj None
     \<and> (passes_filter opts d \<longrightarrow>
          postSave serialize opts (Some d) (w\<lparr>replies := []\<rparr>) =
            (Some d, w\<lparr>replies := [], log := log w @ [partial]\<rparr>)
        \<and> postSave serialize opts (Some d) (w\<lparr>replies := Inr res # rs\<rparr>) =
            (Some d, w\<lparr>replies := rs,
                       log := log w @ [partial] @ emitted ''es-indexed'' None res\<rparr>)
        \<and> (status e \<noteq> Some 404 \<longrightarrow>
             postSave serialize opts (Some d) (w\<lparr>replies := Inl e # rs\<rparr>) =
               (Some d, w\<lparr>replies := rs,
                          log := log w @ [partial] @ emitted ''es-indexed'' (Some e) JUndefined\<rparr>))
        \<and> (status e = Some 404 \<longrightarrow>
             postSave serialize opts (Some d) (w\<lparr>replies := [Inl e]\<rparr>) =
               (Some d, w\<lparr>replies := [], log := log w @ [partial, full]\<rparr>)
           \<and> postSave serialize opts (Some d) (w\<lparr>replies := Inl e # Inr res # rs\<rparr>) =
               (Some d, w\<lparr>replies := rs,
                          log := log w @ [partial, full] @ emitted ''es-indexed'' None res\<rparr>)
           \<and> postSave serialize opts (Some d) (w\<lparr>replies := Inl e # Inl e' # rs\<rparr>) =
               (Some d, w\<lparr>replies := rs,
                          log := log w @ [partial, full]
                            @ emitted ''es-indexed'' (Some e') JUndefined\<rparr>)))
     \<and> (\<not> passes_filter opts d \<longrightarrow>
          postSave serialize opts (Some d) (w\<lparr>replies := []\<rparr>) =
            (Some d, w\<lparr>replies := [],
                       log := log w @ emitted ''es-filtered'' None JUndefined @ [removing]\<rparr>)
        \<and> postSave serialize opts (Some d) (w\<lparr>replies := Inr res # rs\<rparr>) =
            (Some d, w\<lparr>replies := rs,
                       log := log w @ emitted ''es-filtered'' None JUndefined @ [removing]
                         @ emitted ''es-removed'' None JUndefined\<rparr>)
        \<and> postSave serialize opts (Some d) (w\<lparr>replies := Inl e # rs\<rparr>) =
            (Some d, w\<lparr>replies := rs,
                       log := log w @ emitted ''es-filtered'' None JUndefined @ [removing]
                         @ emitted ''es-removed'' (Some e) JUndefined\<rparr>))"
proof -
  have arg: "index_arg no_mexp = UObj None"
    by (simp add: index_arg_def no_mexp_def truthy_wasNew_def)
  have pass: "passes_filter opts d \<Longrightarrow> postSave serialize opts (Some d) w' =
      (Some d, emit_indexed d (priv_indexDoc (doc_id d) body opts True w'))" for w'
    unfolding assms(3) by (simp add: postSave_bare [OF assms(1,2)])
  have fail: "\<not> passes_filter opts d \<Longrightarrow> postSave serialize opts (Some d) w' =
      (Some d, remove_and_emit opts d (emit_both d ''es-filtered'' None JUndefined w'))" for w'
    by (simp add: postSave_bare [OF assms(1,2)])
  show ?thesis
    unfolding assms(4-7)
    by (intro conjI impI arg)
      (simp_all add: pass fail priv_indexDoc_update priv_indexDoc_index index_request_def
        emit_indexed_def emit_both_def act_def remove_and_emit_def removeDoc_def
        remove_request_def)
qed

theorem postSave_without_context_witness:
  "has_esOptions sample_doc \<and> d_mexp sample_doc = None
   \<and> passes_filter sample_opts sample_doc
   \<and> postSave sample_serialize sample_opts (Some sample_doc)
        \<lparr>replies = [Inr JNull], log = []\<rparr> =
       (Some sample_doc,
        \<lparr>replies = [],
         log = [Request \<lparr>rq_method = Update, rq_index = ''users'', rq_type = ''user'',
                         rq_id = ''42'', rq_body = PartialDoc [''name'' \<mapsto> JStr ''Ann'']\<rparr>,
                Emit (Instance ''42'') ''es-indexed'' None JNull,
                Emit Collection ''es-indexed'' None JNull]\<rparr>)
   \<and> has_esOptions (numbered ''2'') \<and> d_mexp (numbered ''2'') = None
   \<and> \<not> passes_filter picky_opts (numbered ''2'')
   \<and> postSave sample_serialize picky_opts (Some (numbered ''2''))
        \<lparr>replies = [Inr JNull], log = []\<rparr> =
       (Some (numbered ''2''),
        \<lparr>replies = [],
         log = [Emit (Instance ''2'') ''es-filtered'' None JUndefined,
                Emit Collection ''es-filtered'' None JUndefined,
                Request \<lparr>rq_method = Delete, rq_index = ''users'', rq_type = ''user'',
                         rq_id = ''2'', rq_body = NoBody\<rparr>,
                Emit (Instance ''2'') ''es-removed'' None JUndefined,
                Emit Collection ''es-removed'' None JUndefined]\<rparr>)"
proof -
  have a: "has_esOptions sample_doc" "d_mexp sample_doc = None"
    "passes_filter sample_opts sample_doc"
    by (simp_all add: sample_defs passes_filter_def)
  have b: "has_esOptions (numbered ''2'')" "d_mexp (numbered ''2'') = None"
    "\<not> passes_filter picky_opts (numbered ''2'')"
    by (simp_all add: sample_defs passes_filter_def)
  note t1 = postSave_without_context [OF a(1,2) refl refl refl refl refl,
      where serialize = sample_serialize and opts = sample_opts
        and w = "\<lparr>replies = [], log = []\<rparr>" and res = JNull and rs = "[]"]
  note t2 = postSave_without_context [OF b(1,2) refl refl refl refl refl,
      where serialize = sample_serialize and opts = picky_opts
        and w = "\<lparr>replies = [], log = []\<rparr>" and res = JNull and rs = "[]"]
  from t1 a have "postSave sample_serialize sample_opts (Some sample_doc)
        \<lparr>replies = [Inr JNull], log = []\<rparr> =
       (Some sample_doc,
        \<lparr>replies = [],
         log = [Request \<lparr>rq_method = Update, rq_index = ''users'', rq_type = ''user'',
                         rq_id = ''42'', rq_body = PartialDoc [''name'' \<mapsto> JStr ''Ann'']\<rparr>,
                Emit (Instance ''42'') ''es-indexed'' None JNull,
                Emit Collection ''es-indexed'' None JNull]\<rparr>)"
    by (simp add: sample_defs)
  moreover from t2 b have "postSave sample_serialize picky_opts (Some (numbered ''2''))
        \<lparr>replies = [Inr JNull], log = []\<rparr> =
       (Some (numbered ''2''),
        \<lparr>replies = [],
         log = [Emit (Instance ''2'') ''es-filtered'' None JUndefined,
                Emit Collection ''es-filtered'' None JUndefined,
                Request \<lparr>rq_method = Delete, rq_index = ''users'', rq_type = ''user'',
                         rq_id = ''2'', rq_body = NoBody\<rparr>,
                Emit (Instance ''2'') ''es-removed'' None JUndefined,
                Emit Collection ''es-removed'' None JUndefined]\<rparr>)"
    by (simp add: sample_defs)
  ultimately show ?thesis using a b by simp
qed

text \<open>
  C7, as the claim states it, fails: with scripted unset active and a non-empty unset
  list, a save whose update request the backend answers with an error (status 500
  here) makes no unset-fields call. The update request is followed by the two
  \<^verbatim>\<open>es-indexed\<close> events carrying the error and by nothing else.
\<close>

theorem save_unset_skipped_counterexample:
  "es_script script_opts
   \<and> sample_getUndefineds
        (sample_doc\<lparr>d_mexp := Some \<lparr>wasNew = Some False, unset = None\<rparr>\<rparr>) () = [''age'']
   \<and> log (snd (save sample_getUndefineds sample_serialize script_opts sample_doc
                  \<lparr>replies = [Inl server_error], log = []\<rparr>)) =
       [Request \<lparr>rq_method = Update, rq_index = ''users'', rq_type = ''user'', rq_id = ''42'',
                 rq_body = PartialDoc [''name'' \<mapsto> JStr ''Ann'', ''age'' \<mapsto> JNull]\<rparr>,
        Emit (Instance ''42'') ''es-indexed'' (Some server_error) JUndefined,
        Emit Collection ''es-indexed'' (Some server_error) JUndefined]"
  by (simp add: sample_defs hook_defs index_request_def)

text \<open>
  C7, amended. For a document saved through the save hooks whose filter passes (or
  without filter): the document is fully indexed if \<^verbatim>\<open>preSave\<close> captured it as new, and
  otherwise partially updated carrying the unset-fields list computed in \<^verbatim>\<open>preSave\<close>;
  if scripted unset is active and the unset list is non-empty, an unset-fields call
  follows the index call when that call has resolved, and none is made when it is
  rejected; and an \<^verbatim>\<open>es-indexed\<close> event carrying the error or the result is emitted on
  the instance and on its model.

  In the statement, the full index is an index request with the serialized document
  as its body; the partial update is an update request whose \<^verbatim>\<open>doc\<close> is the serialized
  document after the assignments of null to the fields of the unset list, in which
  every listed name other than \<^verbatim>\<open>__proto__\<close> is null and every other field is
  untouched; the unset-fields call is an update request whose body is the script
  removing the listed fields. An update answered with status 404 is retried as an
  index request with the same body before the chain goes on.
\<close>

theorem save_indexes_then_unsets:
  assumes "has_esOptions d"
    and "d' = d\<lparr>isNew := False, d_mexp := None\<rparr>"
    and "passes_filter opts d'"
    and "body = serialize d' (es_mapping opts)"
    and "u = getUndefineds (d\<lparr>d_mexp := Some \<lparr>wasNew = Some False, unset = None\<rparr>\<rparr>)
               (es_mapping opts)"
    and "nulled = own (set_nulls u body)"
    and "full = Request \<lparr>rq_method = Index, rq_index = es_index opts,
           rq_type = es_type opts, rq_id = doc_id d, rq_body = Source (own body)\<rparr>"
    and "partial = Request \<lparr>rq_method = Update, rq_index = es_index opts,
           rq_type = es_type opts, rq_id = doc_id d, rq_body = PartialDoc nulled\<rparr>"
    and "fallback = Request \<lparr>rq_method = Index, rq_index = es_index opts,
           rq_type = es_type opts, rq_id = doc_id d, rq_body = Source nulled\<rparr>"
    and \<open>unsetting = Request \<lparr>rq_method = Update, rq_index = es_index opts,
           rq_type = es_type opts, rq_id = doc_id d,
           rq_body = ScriptBody
             (join '';'' (map (\<lambda>f. ''ctx._source.remove("'' @ f @ ''")'') u))\<rparr>\<close>
    and "indexed = (\<lambda>err res.
           [Emit (Instance (doc_id d)) ''es-indexed'' err res,
            Emit Collection ''es-indexed'' err res])"
  shows
    "(isNew d \<longrightarrow>
        save getUndefineds serialize opts d (w\<lparr>replies := Inr res # rs\<rparr>) =
          (Some d', w\<lparr>replies := rs, log := log w @ [full] @ indexed None res\<rparr>)
      \<and> save getUndefineds serialize opts d (w\<lparr>replies := Inl e # rs\<rparr>) =
          (Some d', w\<lparr>replies := rs, log := log w @ [full] @ indexed (Some e) JUndefined\<rparr>))
     \<and> (\<forall>f \<in> set u. f \<noteq> ''__proto__'' \<longrightarrow> nulled f = Some JNull)
     \<and> (\<forall>k. k \<notin> set u \<longrightarrow> nulled k = own body k)
     \<and> (\<not> isNew d \<and> \<not> (es_script opts \<and> u \<noteq> []) \<longrightarrow>
        save getUndefineds serialize opts d (w\<lparr>replies := Inr res # rs\<rparr>) =
          (Some d', w\<lparr>replies := rs, log := log w @ [partial] @ indexed None res\<rparr>))
     \<and> (\<not> isNew d \<and> es_script opts \<and> u \<noteq> [] \<longrightarrow>
        save getUndefineds serialize opts d (w\<lparr>replies := Inr res # Inr res' # rs\<rparr>) =
          (Some d', w\<lparr>replies := rs,
                      log := log w @ [partial, unsetting] @ indexed None res'\<rparr>)
      \<and> save getUndefineds serialize opts d (w\<lparr>replies := Inr res # Inl e # rs\<rparr>) =
          (Some d', w\<lparr>replies := rs,
                      log := log w @ [partial, unsetting] @ indexed (Some e) JUndefined\<rparr>))
     \<and> (\<not> isNew d \<and> status e \<noteq> Some 404 \<longrightarrow>
        save getUndefineds serialize opts d (w\<lparr>replies := Inl e # rs\<rparr>) =
          (Some d', w\<lparr>replies := rs,
                      log := log w @ [partial] @ indexed (Some e) JUndefined\<rparr>))
     \<and> (\<not> isNew d \<and> status e = Some 404 \<longrightarrow>
        save getUndefineds serialize opts d (w\<lparr>replies := Inl e # Inl e' # rs\<rparr>) =
          (Some d', w\<lparr>replies := rs,
                      log := log w @ [partial, fallback] @ indexed (Some e') JUndefined\<rparr>))
     \<and> (\<not> isNew d \<and> status e = Some 404 \<and> \<not> (es_script opts \<and> u \<noteq> []) \<longrightarrow>
        save getUndefineds serialize opts d (w\<lparr>replies := Inl e # Inr res # rs\<rparr>) =
          (Some d', w\<lparr>replies := rs,
                      log := log w @ [partial, fallback] @ indexed None res\<rparr>))
     \<and> (\<not> isNew d \<and> status e = Some 404 \<and> es_script opts \<and> u \<noteq> [] \<longrightarrow>
        save getUndefineds serialize opts d (w\<lparr>replies := Inl e # Inr res # Inr res' # rs\<rparr>) =
          (Some d', w\<lparr>replies := rs,
                      log := log w @ [partial, fallback, unsetting] @ indexed None res'\<rparr>)
      \<and> save getUndefineds serialize opts d (w\<lparr>replies := Inl e # Inr res # Inl e' # rs\<rparr>) =
          (Some d', w\<lparr>replies := rs,
                      log := log w @ [partial, fallback, unsetting]
                        @ indexed (Some e') JUndefined\<rparr>))"
proof -
  have rm: "removal = (\<lambda>f. ''ctx._source.remove('' @ [CHR 0x22] @ f @ [CHR 0x22] @ '')'')"
    by (simp add: removal_def fun_eq_iff)
  have new: "isNew d \<Longrightarrow> save getUndefineds serialize opts d w' =
      (Some d', emit_indexed d' (priv_indexDoc (doc_id d) (own body) opts False w'))" for w'
    using assms(1,3) unfolding assms(2,4) by (simp add: save_new Let_def)
  have old: "\<not> isNew d \<Longrightarrow> save getUndefineds serialize opts d w' =
      (Some d',
       emit_indexed d'
         (case priv_indexDoc (doc_id d) nulled opts True w' of
            (Resolved res, w'') \<Rightarrow>
              if es_script opts \<and> u \<noteq> [] then unsetFields opts (FArray u) d' w''
              else (Resolved res, w'')
          | (Rejected err, w'') \<Rightarrow> (Rejected err, w'')
          | (Pending, w'') \<Rightarrow> (Pending, w'')))" for w'
    using assms(1,3) unfolding assms(2,4,5,6) by (simp add: save_old Let_def)
  have id: "doc_id d' = doc_id d"
    by (simp add: assms(2))
  have listed: "\<forall>f \<in> set u. f \<noteq> ''__proto__'' \<longrightarrow> nulled f = Some JNull"
    by (simp add: assms(6) set_nulls_listed)
  have others: "\<forall>k. k \<notin> set u \<longrightarrow> nulled k = own body k"
    by (simp add: assms(6) set_nulls_other)
  show ?thesis
    unfolding assms(7-11)
    by (intro conjI impI listed others)
      (auto simp add: new old id priv_indexDoc_index priv_indexDoc_update index_request_def
        unsetFields_def unset_request_def unset_body_def rm emit_indexed_def emit_both_def
        act_def)
qed

theorem save_indexes_then_unsets_witness:
  \<open>has_esOptions sample_doc
   \<and> passes_filter script_opts (sample_doc\<lparr>isNew := False, d_mexp := None\<rparr>)
   \<and> \<not> isNew sample_doc \<and> es_script script_opts
   \<and> sample_getUndefineds
        (sample_doc\<lparr>d_mexp := Some \<lparr>wasNew = Some False, unset = None\<rparr>\<rparr>) () = [''age'']
   \<and> save sample_getUndefineds sample_serialize script_opts sample_doc
        \<lparr>replies = [Inr JNull, Inr (JBool True)], log = []\<rparr> =
       (Some sample_doc,
        \<lparr>replies = [],
         log = [Request \<lparr>rq_method = Update, rq_index = ''users'', rq_type = ''user'',
                         rq_id = ''42'',
                         rq_body = PartialDoc [''name'' \<mapsto> JStr ''Ann'', ''age'' \<mapsto> JNull]\<rparr>,
                Request \<lparr>rq_method = Update, rq_index = ''users'', rq_type = ''user'',
                         rq_id = ''42'',
                         rq_body = ScriptBody ''ctx._source.remove("age")''\<rparr>,
                Emit (Instance ''42'') ''es-indexed'' None (JBool True),
                Emit Collection ''es-indexed'' None (JBool True)]\<rparr>)\<close>
proof -
  have h1: "has_esOptions sample_doc"
    by (simp add: sample_defs)
  have h3: "passes_filter script_opts (sample_doc\<lparr>isNew := False, d_mexp := None\<rparr>)"
    by (simp add: sample_defs passes_filter_def)
  have u: "sample_getUndefineds
      (sample_doc\<lparr>d_mexp := Some \<lparr>wasNew = Some False, unset = None\<rparr>\<rparr>) (es_mapping script_opts)
      = [''age'']"
    "sample_getUndefineds
      (sample_doc\<lparr>d_mexp := Some \<lparr>wasNew = Some False, unset = None\<rparr>\<rparr>) () = [''age'']"
    by (simp_all add: sample_defs)
  have old: "\<not> isNew sample_doc \<and> es_script script_opts"
    "sample_doc\<lparr>isNew := False, d_mexp := None\<rparr> = sample_doc"
    by (simp_all add: sample_defs)
  note t = save_indexes_then_unsets [OF h1 refl h3 refl refl refl refl refl refl refl refl,
      where getUndefineds = sample_getUndefineds and serialize = sample_serialize
        and w = "\<lparr>replies = [], log = []\<rparr>" and res = JNull and res' = "JBool True"
        and rs = "[]"]
  from t h1 h3 old u show ?thesis
    by (simp add: set_nulls_def assign_null_def sample_defs)
qed

section \<open>The bulk queue\<close>

lemma push_cases:
  "push x b =
     (if threshold b \<le> Suc (length (buffer b))
      then (True, b\<lparr>inflight := inflight b @ [buffer b @ [x]], buffer := []\<rparr>)
      else (False, b\<lparr>buffer := buffer b @ [x]\<rparr>))"
  by (simp add: push_def flush_def Let_def)

lemma threshold_push [simp]: "threshold (snd (push x b)) = threshold b"
  by (simp add: push_cases)

lemma threshold_push_all [simp]: "threshold (push_all xs b) = threshold b"
  by (induction xs arbitrary: b) simp_all

lemma push_all_append: "push_all (xs @ ys) b = push_all ys (push_all xs b)"
  by (induction xs arbitrary: b) simp_all

lemma push_all_below:
  "length (buffer b) + length xs < threshold b \<Longrightarrow>
   push_all xs b = b\<lparr>buffer := buffer b @ xs\<rparr>"
proof (induction xs arbitrary: b)
  case Nil
  then show ?case by simp
next
  case (Cons x xs)
  from Cons.prems have "snd (push x b) = b\<lparr>buffer := buffer b @ [x]\<rparr>"
    by (simp add: push_cases)
  then show ?case
    using Cons.IH [of "b\<lparr>buffer := buffer b @ [x]\<rparr>"] Cons.prems by simp
qed

lemma push_all_reach:
  assumes "length (buffer b) + length xs = threshold b" and "xs \<noteq> []"
  shows "push_all xs b = b\<lparr>inflight := inflight b @ [buffer b @ xs], buffer := []\<rparr>"
proof -
  from assms(2) obtain ys y where xs: "xs = ys @ [y]"
    by (cases xs rule: rev_cases) auto
  with assms(1) have "push_all ys b = b\<lparr>buffer := buffer b @ ys\<rparr>"
    by (intro push_all_below) simp
  then show ?thesis
    using assms(1) xs by (simp add: push_all_append push_cases)
qed

lemma buffer_bound_push:
  "length (buffer b) \<le> threshold b - 1 \<Longrightarrow>
   length (buffer (snd (push x b))) \<le> threshold b - 1"
  by (auto simp: push_cases)

lemma buffer_bound_push_all:
  "length (buffer b) \<le> threshold b - 1 \<Longrightarrow>
   length (buffer (push_all xs b)) \<le> threshold b - 1"
proof (induction xs arbitrary: b)
  case Nil
  then show ?case by simp
next
  case (Cons x xs)
  from Cons.IH [of "snd (push x b)"] buffer_bound_push [OF Cons.prems, of x]
  show ?case by simp
qed

text \<open>
  C9. However many operations are pushed into a fresh queue, its current batch never
  holds more operations than the threshold. A push reports a flush exactly when it
  makes the batch reach the threshold. Pushing \<open>N\<close> operations, where \<open>N\<close> reaches the
  threshold \<open>n\<close> and stays below twice the threshold, triggers exactly one flush; the
  flushed batch holds the first \<open>n\<close> operations in push order, and the remaining
  operations are the new current batch.
\<close>

theorem bulker_threshold:
  "length (buffer (push_all ops (new_bulker n))) \<le> n
   \<and> fst (push x b) = (threshold b \<le> Suc (length (buffer b)))
   \<and> (0 < n \<and> n \<le> length ops \<and> length ops < 2 * n \<longrightarrow>
        push_all ops (new_bulker n) =
          \<lparr>threshold = n, buffer = drop n ops, inflight = [take n ops], settled = []\<rparr>)"
proof (intro conjI impI)
  have "length (buffer (push_all ops (new_bulker n))) \<le> threshold (new_bulker n) - 1"
    by (rule buffer_bound_push_all) (simp add: new_bulker_def)
  then show "length (buffer (push_all ops (new_bulker n))) \<le> n"
    by (simp add: new_bulker_def)
  show "fst (push x b) = (threshold b \<le> Suc (length (buffer b)))"
    by (simp add: push_cases)
next
  assume a: "0 < n \<and> n \<le> length ops \<and> length ops < 2 * n"
  then have "take n ops \<noteq> []" by auto
  with a have first: "push_all (take n ops) (new_bulker n) =
      \<lparr>threshold = n, buffer = [], inflight = [take n ops], settled = []\<rparr>"
    using push_all_reach [of "new_bulker n" "take n ops"]
    by (simp add: new_bulker_def)
  have "push_all ops (new_bulker n) =
      push_all (drop n ops) (push_all (take n ops) (new_bulker n))"
    using push_all_append [of "take n ops" "drop n ops" "new_bulker n"] by simp
  also have "\<dots> = \<lparr>threshold = n, buffer = drop n ops, inflight = [take n ops], settled = []\<rparr>"
  proof -
    from a have "length ops - n < n" by arith
    then show ?thesis
      using push_all_below
        [of "\<lparr>threshold = n, buffer = [], inflight = [take n ops], settled = []\<rparr>"
          "drop n ops"]
      by (simp add: first)
  qed
  finally show "push_all ops (new_bulker n) =
      \<lparr>threshold = n, buffer = drop n ops, inflight = [take n ops], settled = []\<rparr>" .
qed

theorem bulker_threshold_witness:
  "(0::nat) < 2 \<and> 2 \<le> length three_ops \<and> length three_ops < 2 * 2
   \<and> push_all three_ops (new_bulker 2) =
       \<lparr>threshold = 2,
        buffer = [sync_op sample_serialize sample_opts (numbered ''3'')],
        inflight = [[sync_op sample_serialize sample_opts (numbered ''1''),
                     sync_op sample_serialize sample_opts (numbered ''2'')]],
        settled = []\<rparr>"
  using bulker_threshold [where n = 2 and ops = three_ops]
  by (simp add: three_ops_def)

section \<open>Synchronize\<close>

lemma refreshes_simps [simp]:
  "refreshes (tell Pause st) = refreshes st"
  "refreshes (tell Resume st) = refreshes st"
  "refreshes (tell (EmitData d) st) = refreshes st"
  "refreshes (tell (EmitFiltered d) st) = refreshes st"
  "refreshes (tell (EmitSent len) st) = refreshes st"
  "refreshes (tell (EmitError err) st) = refreshes st"
  "refreshes (tell (RefreshCall i) st) = Suc (refreshes st)"
  "refreshes (st\<lparr>paused := p\<rparr>) = refreshes st"
  "refreshes (st\<lparr>streamClosed := c\<rparr>) = refreshes st"
  "refreshes (st\<lparr>listening := l\<rparr>) = refreshes st"
  "refreshes (st\<lparr>queue := b\<rparr>) = refreshes st"
  "refreshes (st\<lparr>awaiting := k\<rparr>) = refreshes st"
  "refreshes (st\<lparr>promise := out\<rparr>) = refreshes st"
  by (simp_all add: refreshes_def tell_def)

lemma tell_fields [simp]:
  "paused (tell a st) = paused st"
  "streamClosed (tell a st) = streamClosed st"
  "listening (tell a st) = listening st"
  "queue (tell a st) = queue st"
  "awaiting (tell a st) = awaiting st"
  "promise (tell a st) = promise st"
  "sync_log (tell a st) = sync_log st @ [a]"
  by (simp_all add: tell_def)

lemma sync_inv_init: "sync_inv (synchronize (new_bulker n))"
  by (simp add: sync_inv_def synchronize_def new_bulker_def refreshes_def)

lemma sync_inv_onData:
  assumes "sync_inv st" and "\<not> paused st" and "\<not> streamClosed st"
  shows "sync_inv (onData serialize opts d st)"
  using assms
  by (auto simp: sync_inv_def onData_def pause_def resume_def push_cases Let_def)

lemma sync_inv_onClose:
  assumes "sync_inv st" and "\<not> streamClosed st"
  shows "sync_inv (onClose opts st)"
  using assms
  by (auto simp: sync_inv_def onClose_def filled_def flush_def finalize_def Let_def)

lemma sync_inv_Flushed:
  assumes "sync_inv st" and "step serialize opts st (Flushed r) = Some st'"
  shows "sync_inv st'"
  using assms
  by (auto simp: sync_inv_def settle_def onSent_def onError_def finalize_def resume_def Let_def
      split: list.splits option.splits if_splits)

lemma sync_inv_Refreshed:
  assumes "sync_inv st" and "awaiting st \<noteq> 0"
  shows "sync_inv (onRefreshed r st)"
  using assms
  by (auto simp: sync_inv_def onRefreshed_def Let_def split: sum.splits)

lemma sync_inv_step:
  assumes "sync_inv st" and "step serialize opts st ev = Some st'"
  shows "sync_inv st'"
proof (cases ev)
  case (Data d)
  with assms show ?thesis by (auto simp: sync_inv_onData split: if_splits)
next
  case Close
  with assms show ?thesis by (auto simp: sync_inv_onClose split: if_splits)
next
  case (Flushed r)
  with assms show ?thesis using sync_inv_Flushed by blast
next
  case (Refreshed r)
  with assms show ?thesis by (auto simp: sync_inv_Refreshed split: if_splits)
qed

lemma sync_inv_run:
  "sync_inv st \<Longrightarrow> run serialize opts st evs = Some st' \<Longrightarrow> sync_inv st'"
proof (induction evs arbitrary: st)
  case Nil
  then show ?case by simp
next
  case (Cons ev evs)
  then show ?case
    by (auto split: option.splits dest: sync_inv_step)
qed

lemma sync_inv_reachable:
  "run serialize opts (synchronize (new_bulker n)) evs = Some st \<Longrightarrow> sync_inv st"
  using sync_inv_init sync_inv_run by blast

lemma run_append:
  "run serialize opts st (evs @ evs') =
     (case run serialize opts st evs of
        None \<Rightarrow> None
      | Some st' \<Rightarrow> run serialize opts st' evs')"
  by (induction evs arbitrary: st) (auto split: option.splits)

lemma onData_log:
  "sync_log (onData serialize opts d st) =
     sync_log st @
       (if passes_filter opts d
        then (if fst (push (sync_op serialize opts d) (queue st))
              then [Pause, EmitData d] else [Pause, EmitData d, Resume])
        else [Pause, EmitFiltered d, Resume])"
  by (auto simp: onData_def pause_def resume_def Let_def push_cases)

lemma onData_paused:
  "paused (onData serialize opts d st) =
     (passes_filter opts d \<and> fst (push (sync_op serialize opts d) (queue st)))"
  by (simp add: onData_def pause_def resume_def Let_def split: prod.splits)

lemma resumed_by_flush:
  assumes "paused st" and "step serialize opts st ev = Some st'" and "\<not> paused st'"
  shows "\<exists>r. ev = Flushed r"
proof (cases ev)
  case (Data d)
  with assms show ?thesis by simp
next
  case Close
  with assms show ?thesis
    by (auto simp: onClose_def finalize_def Let_def split: if_splits)
next
  case (Flushed r)
  then show ?thesis by simp
next
  case (Refreshed r)
  with assms show ?thesis
    by (auto simp: onRefreshed_def Let_def split: if_splits)
qed

lemma flush_resumes:
  assumes "sync_inv st" and "\<not> streamClosed st" and "paused st"
  shows "\<exists>st'. step serialize opts st (Flushed r) = Some st' \<and> \<not> paused st'"
proof -
  from assms obtain b where b: "inflight (queue st) = [b]"
    by (cases "inflight (queue st)") (auto simp: sync_inv_def)
  from assms have "listening st" by (simp add: sync_inv_def)
  with b assms(2) show ?thesis
    by (cases r) (simp_all add: settle_def onSent_def onError_def resume_def Let_def)
qed

text \<open>
  C1. The \<^verbatim>\<open>data\<close> handler pauses the stream before anything else and resumes it at its
  end exactly when the document was filtered out or was pushed without triggering a
  flush; after a push that triggered a flush the stream stays paused. A paused stream
  is resumed by no step other than the settling of a flush. In every state that a
  session reaches at most one flush is in flight, and as long as the stream has not
  closed it is paused exactly while a flush is in flight: the settling of that flush,
  successful or not, resumes it, and until then no further document is delivered.
\<close>

theorem synchronize_backpressure:
  "sync_log (onData serialize opts d st) =
     sync_log st @
       (if passes_filter opts d
        then (if fst (push (sync_op serialize opts d) (queue st))
              then [Pause, EmitData d] else [Pause, EmitData d, Resume])
        else [Pause, EmitFiltered d, Resume])
   \<and> paused (onData serialize opts d st) =
       (passes_filter opts d \<and> fst (push (sync_op serialize opts d) (queue st)))
   \<and> (paused st \<and> step serialize opts st ev = Some st' \<and> \<not> paused st' \<longrightarrow>
         (\<exists>r. ev = Flushed r))
   \<and> (run serialize opts (synchronize (new_bulker n)) evs = Some st \<longrightarrow>
         length (inflight (queue st)) \<le> 1
         \<and> (\<not> streamClosed st \<longrightarrow>
               (paused st \<longleftrightarrow> inflight (queue st) \<noteq> [])
               \<and> (paused st \<longrightarrow>
                    (\<exists>st'. step serialize opts st (Flushed r) = Some st' \<and> \<not> paused st'))
               \<and> (paused st \<longrightarrow> step serialize opts st (Data d') = None)))"
proof (intro conjI impI)
  show "sync_log (onData serialize opts d st) =
     sync_log st @
       (if passes_filter opts d
        then (if fst (push (sync_op serialize opts d) (queue st))
              then [Pause, EmitData d] else [Pause, EmitData d, Resume])
        else [Pause, EmitFiltered d, Resume])"
    by (rule onData_log)
  show "paused (onData serialize opts d st) =
       (passes_filter opts d \<and> fst (push (sync_op serialize opts d) (queue st)))"
    by (rule onData_paused)
  show "\<exists>r. ev = Flushed r"
    if "paused st \<and> step serialize opts st ev = Some st' \<and> \<not> paused st'"
    using that resumed_by_flush by blast
next
  assume reach: "run serialize opts (synchronize (new_bulker n)) evs = Some st"
  then have inv: "sync_inv st" by (rule sync_inv_reachable)
  then show "length (inflight (queue st)) \<le> 1" by (simp add: sync_inv_def)
  assume "\<not> streamClosed st"
  with inv show "paused st \<longleftrightarrow> inflight (queue st) \<noteq> []" by (simp add: sync_inv_def)
  assume "paused st"
  then show "step serialize opts st (Data d') = None" by simp
  from inv \<open>\<not> streamClosed st\<close> \<open>paused st\<close>
  show "\<exists>st'. step serialize opts st (Flushed r) = Some st' \<and> \<not> paused st'"
    by (rule flush_resumes)
qed

theorem synchronize_backpressure_witness:
  "\<exists>st st'. run sample_serialize sample_opts (synchronize (new_bulker 2))
        [Data (numbered ''1''), Data (numbered ''2'')] = Some st
     \<and> \<not> streamClosed st \<and> paused st
     \<and> sync_log st =
         [Pause, EmitData (numbered ''1''), Resume, Pause, EmitData (numbered ''2'')]
     \<and> inflight (queue st) = [take 2 three_ops]
     \<and> step sample_serialize sample_opts st (Data (numbered ''3'')) = None
     \<and> step sample_serialize sample_opts st (Flushed None) = Some st'
     \<and> \<not> paused st'
     \<and> sync_log st' = sync_log st @ [EmitSent 2, Resume]"
proof -
  define evs where "evs = [Data (numbered ''1''), Data (numbered ''2'')]"
  define st where "st = the (run sample_serialize sample_opts (synchronize (new_bulker 2)) evs)"
  have r: "run sample_serialize sample_opts (synchronize (new_bulker 2)) evs = Some st"
    unfolding st_def evs_def by (simp add: sync_defs sample_defs)
  have open_paused: "\<not> streamClosed st" "paused st"
    and l: "listening st"
    and lg: "sync_log st =
         [Pause, EmitData (numbered ''1''), Resume, Pause, EmitData (numbered ''2'')]"
    and fl: "inflight (queue st) = [take 2 three_ops]"
    unfolding st_def evs_def by (simp_all add: sync_defs sample_defs three_ops_def)
  note t = synchronize_backpressure [where serialize = sample_serialize and opts = sample_opts
      and n = 2 and evs = evs and st = st and r = None and d' = "numbered ''3''"]
  from t r open_paused obtain st' where
    s: "step sample_serialize sample_opts st (Flushed None) = Some st'" and np: "\<not> paused st'"
    and blocked: "step sample_serialize sample_opts st (Data (numbered ''3'')) = None"
    by blast
  from s fl open_paused l have "sync_log st' = sync_log st @ [EmitSent 2, Resume]"
    by (auto simp: settle_def onSent_def resume_def tell_def Let_def three_ops_def
        split: if_splits)
  with r open_paused lg fl s np blocked show ?thesis
    unfolding evs_def by blast
qed

text \<open>
  C2. In every state that a session reaches, the index refresh has been requested at
  most once; if it has been requested, the stream has closed and the current batch of
  the queue is empty; and once the stream has closed and no flush is in flight it has
  been requested, exactly once. At close, a filled queue is flushed and no refresh is
  requested in that step; an empty queue leads to the refresh at once.
\<close>

theorem finalize_exactly_once:
  "(run serialize opts (synchronize (new_bulker n)) evs = Some st \<longrightarrow>
      refreshes st \<le> 1
      \<and> (refreshes st = 1 \<longrightarrow> streamClosed st \<and> buffer (queue st) = [])
      \<and> (streamClosed st \<and> inflight (queue st) = [] \<longrightarrow> refreshes st = 1))
   \<and> (filled (queue s) \<longrightarrow>
        onClose opts s =
          s\<lparr>streamClosed := True,
            queue := (queue s)\<lparr>inflight := inflight (queue s) @ [buffer (queue s)],
                                buffer := []\<rparr>\<rparr>)
   \<and> (\<not> filled (queue s) \<longrightarrow>
        onClose opts s =
          s\<lparr>streamClosed := True, listening := False, awaiting := Suc (awaiting s),
            sync_log := sync_log s @ [RefreshCall (es_index opts)]\<rparr>)"
proof (intro conjI impI)
  assume "run serialize opts (synchronize (new_bulker n)) evs = Some st"
  then have inv: "sync_inv st" by (rule sync_inv_reachable)
  then show "refreshes st \<le> 1"
    by (cases "streamClosed st") (simp_all add: sync_inv_def)
  show "streamClosed st" if "refreshes st = 1"
    using inv that by (auto simp: sync_inv_def)
  show "buffer (queue st) = []" if "refreshes st = 1"
    using inv that by (auto simp: sync_inv_def)
  show "refreshes st = 1" if "streamClosed st \<and> inflight (queue st) = []"
    using inv that by (auto simp: sync_inv_def)
next
  assume "filled (queue s)"
  then show "onClose opts s =
          s\<lparr>streamClosed := True,
            queue := (queue s)\<lparr>inflight := inflight (queue s) @ [buffer (queue s)],
                                buffer := []\<rparr>\<rparr>"
    by (simp add: onClose_def filled_def flush_def Let_def)
next
  assume "\<not> filled (queue s)"
  then show "onClose opts s =
          s\<lparr>streamClosed := True, listening := False, awaiting := Suc (awaiting s),
            sync_log := sync_log s @ [RefreshCall (es_index opts)]\<rparr>"
    by (simp add: onClose_def finalize_def tell_def Let_def)
qed

theorem finalize_exactly_once_witness:
  "\<exists>st. run sample_serialize sample_opts (synchronize (new_bulker 2))
        [Data (numbered ''1''), Data (numbered ''2''), Flushed None, Data (numbered ''3''),
         Close, Flushed None] = Some st
     \<and> streamClosed st \<and> inflight (queue st) = [] \<and> buffer (queue st) = []
     \<and> settled (queue st) = [take 2 three_ops, drop 2 three_ops]
     \<and> refreshes st = 1"
proof -
  define evs where "evs = [Data (numbered ''1''), Data (numbered ''2''), Flushed None,
    Data (numbered ''3''), Close, Flushed None]"
  define st where "st = the (run sample_serialize sample_opts (synchronize (new_bulker 2)) evs)"
  have r: "run sample_serialize sample_opts (synchronize (new_bulker 2)) evs = Some st"
    unfolding st_def evs_def by (simp add: sync_defs sample_defs)
  have c: "streamClosed st \<and> inflight (queue st) = []"
    and b: "buffer (queue st) = []"
      "settled (queue st) = [take 2 three_ops, drop 2 three_ops]"
    unfolding st_def evs_def by (simp_all add: sync_defs sample_defs three_ops_def)
  from finalize_exactly_once [where serialize = sample_serialize and opts = sample_opts
      and n = 2 and evs = evs and st = st] r c
  have "refreshes st = 1" by blast
  with r c b show ?thesis unfolding evs_def by blast
qed

lemma promise_onData [simp]: "promise (onData serialize opts d st) = promise st"
  by (auto simp: onData_def pause_def resume_def Let_def split: prod.splits)

lemma promise_step:
  assumes "step serialize opts st ev = Some st'" and "promise st' = Rejected err"
  shows "promise st = Rejected err \<or> ev = Refreshed (Inl err)"
proof (cases ev)
  case (Data d)
  with assms show ?thesis by (auto split: if_splits)
next
  case Close
  with assms show ?thesis
    by (auto simp: onClose_def finalize_def Let_def split: if_splits)
next
  case (Flushed r)
  with assms show ?thesis
    by (auto simp: onSent_def onError_def finalize_def resume_def Let_def
        split: option.splits if_splits bulk_event.splits)
next
  case (Refreshed r)
  with assms show ?thesis
    by (auto simp: onRefreshed_def Let_def split: if_splits sum.splits)
qed

lemma promise_run:
  "run serialize opts st evs = Some st' \<Longrightarrow> promise st' = Rejected err \<Longrightarrow>
   promise st = Rejected err \<or> Refreshed (Inl err) \<in> set evs"
proof (induction evs arbitrary: st)
  case Nil
  then show ?case by simp
next
  case (Cons ev evs)
  from Cons.prems obtain st1 where
    s1: "step serialize opts st ev = Some st1" and r: "run serialize opts st1 evs = Some st'"
    by (auto split: option.splits)
  from Cons.IH [OF r Cons.prems(2)] promise_step [OF s1]
  show ?case by auto
qed

text \<open>
  C6. A failed flush while the stream has not closed emits \<^verbatim>\<open>es-bulk-error\<close> and resumes
  the stream; the session keeps listening, its promise stays pending and the next
  document is handled as usual. An error of the refresh call rejects the promise with
  that error, and a session is never rejected with anything but an error of its
  refresh call.
\<close>

theorem bulk_error_not_fatal:
  "(listening st \<and> \<not> streamClosed st \<and> inflight (queue st) = b # bs \<longrightarrow>
      step serialize opts st (Flushed (Some err)) =
        Some (st\<lparr>paused := False,
                 queue := (queue st)\<lparr>inflight := bs, settled := settled (queue st) @ [b]\<rparr>,
                 sync_log := sync_log st @ [EmitError err, Resume]\<rparr>))
   \<and> (run serialize opts (synchronize (new_bulker n)) evs = Some st
        \<and> \<not> streamClosed st \<and> inflight (queue st) \<noteq> [] \<longrightarrow>
        (\<exists>st'. step serialize opts st (Flushed (Some err)) = Some st'
           \<and> promise st' = Pending \<and> \<not> paused st' \<and> \<not> streamClosed st'
           \<and> step serialize opts st' (Data d) = Some (onData serialize opts d st')))
   \<and> (run serialize opts (synchronize (new_bulker n)) (evs @ [Refreshed (Inl err)]) = Some st
        \<longrightarrow> promise st = Rejected err)
   \<and> (run serialize opts (synchronize (new_bulker n)) evs = Some st
        \<and> promise st = Rejected err \<longrightarrow> Refreshed (Inl err) \<in> set evs)"
proof (intro conjI impI)
  assume "listening st \<and> \<not> streamClosed st \<and> inflight (queue st) = b # bs"
  then show "step serialize opts st (Flushed (Some err)) =
        Some (st\<lparr>paused := False,
                 queue := (queue st)\<lparr>inflight := bs, settled := settled (queue st) @ [b]\<rparr>,
                 sync_log := sync_log st @ [EmitError err, Resume]\<rparr>)"
    by (simp add: settle_def onError_def resume_def tell_def Let_def)
next
  assume a: "run serialize opts (synchronize (new_bulker n)) evs = Some st
        \<and> \<not> streamClosed st \<and> inflight (queue st) \<noteq> []"
  then have inv: "sync_inv st" using sync_inv_reachable by blast
  from a obtain b bs where b: "inflight (queue st) = b # bs"
    by (cases "inflight (queue st)") auto
  from inv a have "listening st" and "promise st = Pending"
    by (auto simp: sync_inv_def)
  with a b show "\<exists>st'. step serialize opts st (Flushed (Some err)) = Some st'
           \<and> promise st' = Pending \<and> \<not> paused st' \<and> \<not> streamClosed st'
           \<and> step serialize opts st' (Data d) = Some (onData serialize opts d st')"
    by (simp add: settle_def onError_def resume_def Let_def)
next
  assume "run serialize opts (synchronize (new_bulker n)) (evs @ [Refreshed (Inl err)]) = Some st"
  then obtain st0 where r: "run serialize opts (synchronize (new_bulker n)) evs = Some st0"
    and s: "step serialize opts st0 (Refreshed (Inl err)) = Some st"
    by (auto simp: run_append split: option.splits)
  from r have inv: "sync_inv st0" by (rule sync_inv_reachable)
  from s have "awaiting st0 \<noteq> 0" by (auto split: if_splits)
  with inv have "promise st0 = Pending" by (auto simp: sync_inv_def)
  with s show "promise st = Rejected err"
    by (auto simp: onRefreshed_def Let_def split: if_splits)
next
  assume a: "run serialize opts (synchronize (new_bulker n)) evs = Some st
        \<and> promise st = Rejected err"
  then show "Refreshed (Inl err) \<in> set evs"
    using promise_run [of serialize opts "synchronize (new_bulker n)" evs st err]
    by (simp add: synchronize_def)
qed

theorem bulk_error_not_fatal_witness:
  "(\<exists>st st'. run sample_serialize sample_opts (synchronize (new_bulker 2))
        [Data (numbered ''1''), Data (numbered ''2'')] = Some st
     \<and> \<not> streamClosed st \<and> inflight (queue st) \<noteq> []
     \<and> step sample_serialize sample_opts st (Flushed (Some server_error)) = Some st'
     \<and> promise st' = Pending \<and> \<not> paused st'
     \<and> sync_log st' = sync_log st @ [EmitError server_error, Resume])
   \<and> (\<exists>st. run sample_serialize sample_opts (synchronize (new_bulker 2))
        ([Close] @ [Refreshed (Inl server_error)]) = Some st
     \<and> promise st = Rejected server_error)"
proof -
  define evs where "evs = [Data (numbered ''1''), Data (numbered ''2'')]"
  define st where "st = the (run sample_serialize sample_opts (synchronize (new_bulker 2)) evs)"
  have r: "run sample_serialize sample_opts (synchronize (new_bulker 2)) evs = Some st"
    unfolding st_def evs_def by (simp add: sync_defs sample_defs)
  have c: "\<not> streamClosed st \<and> inflight (queue st) \<noteq> []" and l: "listening st"
    unfolding st_def evs_def by (simp_all add: sync_defs sample_defs)
  note t = bulk_error_not_fatal [where serialize = sample_serialize and opts = sample_opts
      and n = 2 and err = server_error]
  from t [where evs = evs and st = st and d = "numbered ''3''"] r c obtain st' where
    s: "step sample_serialize sample_opts st (Flushed (Some server_error)) = Some st'"
    and p: "promise st' = Pending" "\<not> paused st'"
    by blast
  from s c l have lg: "sync_log st' = sync_log st @ [EmitError server_error, Resume]"
    by (auto simp: settle_def onError_def resume_def tell_def Let_def split: list.splits)
  define fin where "fin = the (run sample_serialize sample_opts (synchronize (new_bulker 2))
      ([Close] @ [Refreshed (Inl server_error)]))"
  have rf: "run sample_serialize sample_opts (synchronize (new_bulker 2))
      ([Close] @ [Refreshed (Inl server_error)]) = Some fin"
    unfolding fin_def by (simp add: sync_defs sample_defs)
  from t [where evs = "[Close]" and st = fin] rf have "promise fin = Rejected server_error"
    by blast
  with r c s p lg rf show ?thesis unfolding evs_def by blast
qed










end
